theory Spec2Isabelle
  imports Complex_Main "HOL-Library.AList"
begin

section \<open>The dashboard endpoints of \<^verbatim>\<open>app/api/dashboard.py\<close>\<close>

text \<open>
  The file has two endpoints: \<^verbatim>\<open>get_dashboard_data\<close>, which cleans the three runtime
  stores and then reads them into one JSON object, and \<^verbatim>\<open>reset_stats\<close>, which clears the
  call statistics after a password check. Both work on process-wide state
  (\<^verbatim>\<open>settings.api_call_stats\<close>, \<^verbatim>\<open>response_cache_manager.cache\<close>,
  \<^verbatim>\<open>active_requests_manager.active_requests\<close>); the model passes that state explicitly.

  Conventions of the model:
  \<^item> a Python \<^verbatim>\<open>dict\<close> is an association list in insertion order, which is the order
    \<^verbatim>\<open>.items()\<close> and \<^verbatim>\<open>.values()\<close> iterate in; a well-formed one has distinct keys;
    \<^verbatim>\<open>k in d\<close> and \<^verbatim>\<open>d[k]\<close> are \<^const>\<open>map_of\<close>, and \<^verbatim>\<open>d[k] = v\<close> is
    \<^const>\<open>AList.update\<close> (overwrite in place, or append a new key);
  \<^item> a Python \<^verbatim>\<open>int\<close> is an \<^typ>\<open>int\<close>;
  \<^item> a Python \<^verbatim>\<open>float\<close> is a \<^typ>\<open>real\<close>: the model computes with exact arithmetic and
    leaves out the rounding and the range of IEEE doubles; the percentage as the code
    reports it is computed a second time in double arithmetic, in a subsection of its own;
  \<^item> a Python \<^verbatim>\<open>str\<close> is a \<^typ>\<open>string\<close>, one element per character;
  \<^item> an exception is a value: a function that can raise returns a sum, \<open>Inl\<close> the error.
\<close>

subsection \<open>Data\<close>

type_synonym 'v dict = "(string \<times> 'v) list"

datatype py_error = ZeroDivisionError | AttributeError

text \<open>
  One granularity of \<^verbatim>\<open>settings.api_call_stats\<close>: \<^verbatim>\<open>'total'\<close> maps a bucket label to a
  count, \<^verbatim>\<open>'by_endpoint'\<close> maps an API key to a model name to a bucket label to a count.
  The code tests \<^verbatim>\<open>'by_endpoint' in ...\<close> before it reads it, so that entry is optional.
\<close>

record granularity_stats =
  total_calls :: "int dict"
  by_endpoint :: "int dict dict dict option"

record api_call_stats =
  last_24h :: granularity_stats
  hourly :: granularity_stats
  minute :: granularity_stats

text \<open>
  An entry of \<^verbatim>\<open>response_cache_manager.cache\<close> is a dict read with
  \<^verbatim>\<open>.get('expiry_time', 0)\<close> and \<^verbatim>\<open>.get('response', {})\<close>: both keys may be absent. The
  response is an object whose attribute \<^verbatim>\<open>model\<close> is a string or \<^verbatim>\<open>None\<close>.
\<close>

record response =
  model :: "string option"

record cache_entry =
  expiry_time :: "real option"
  response :: "response option"

text \<open>A tracked task; \<open>task_done\<close> is what \<^verbatim>\<open>task.done()\<close> returns.\<close>

record task =
  task_done :: bool

record app_state =
  api_call_stats :: api_call_stats
  cache :: "cache_entry dict"
  active_requests :: "task dict"

subsection \<open>Active requests (lines 143 to 146)\<close>

text \<open>
  \<^verbatim>\<open>
  active_count = len(active_requests_manager.active_requests)
  active_done = sum(1 for task in active_requests_manager.active_requests.values() if task.done())
  active_pending = active_count - active_done
  \<close>
\<close>

record active_stats =
  active_count :: int
  active_done :: int
  active_pending :: int

fun count_done :: "task list \<Rightarrow> int" where
  "count_done [] = 0"
| "count_done (t # ts) = (if task_done t then 1 + count_done ts else count_done ts)"

definition active_request_stats :: "task dict \<Rightarrow> active_stats" where
  "active_request_stats reqs =
     (let active_count = int (length reqs);
          active_done = count_done (map snd reqs);
          active_pending = active_count - active_done
      in \<lparr>active_count = active_count, active_done = active_done,
          active_pending = active_pending\<rparr>)"

subsection \<open>Call totals (lines 61 to 86)\<close>

text \<open>
  A naive \<^verbatim>\<open>datetime\<close> is a point on a line with microsecond resolution; the model counts
  the microseconds. \<^verbatim>\<open>timedelta(hours=1)\<close> and \<^verbatim>\<open>timedelta(minutes=1)\<close> are then
  numbers of microseconds.

  \<^verbatim>\<open>datetime.strptime\<close> belongs to Python's library. The model takes it as a parameter:
  given the text and the format it returns the parsed time, or \<open>None\<close> where Python raises
  \<^verbatim>\<open>ValueError\<close>, the one exception the loops catch.
\<close>

type_synonym datetime = int

type_synonym strptime = "string \<Rightarrow> string \<Rightarrow> datetime option"

definition timedelta_hours :: "int \<Rightarrow> int" where
  "timedelta_hours h = h * 3600000000"

definition timedelta_minutes :: "int \<Rightarrow> int" where
  "timedelta_minutes m = m * 60000000"

text \<open>
  \<^verbatim>\<open>
  for hour_key, count in settings.api_call_stats['hourly']['total'].items():
      try:
          hour_time = datetime.strptime(hour_key, '%Y-%m-%d %H:00')
          if hour_time >= one_hour_ago:
              hourly_calls += count
      except ValueError:
          continue
  \<close>
\<close>

fun hourly_loop :: "strptime \<Rightarrow> datetime \<Rightarrow> int dict \<Rightarrow> int \<Rightarrow> int" where
  "hourly_loop strp one_hour_ago [] hourly_calls = hourly_calls"
| "hourly_loop strp one_hour_ago ((hour_key, count) # rest) hourly_calls =
     (case strp hour_key ''%Y-%m-%d %H:00'' of
        None \<Rightarrow> hourly_loop strp one_hour_ago rest hourly_calls
      | Some hour_time \<Rightarrow>
          if hour_time \<ge> one_hour_ago
          then hourly_loop strp one_hour_ago rest (hourly_calls + count)
          else hourly_loop strp one_hour_ago rest hourly_calls)"

text \<open>The loop for the last minute is the same with the format \<^verbatim>\<open>'%Y-%m-%d %H:%M'\<close>.\<close>

fun minute_loop :: "strptime \<Rightarrow> datetime \<Rightarrow> int dict \<Rightarrow> int \<Rightarrow> int" where
  "minute_loop strp one_minute_ago [] minute_calls = minute_calls"
| "minute_loop strp one_minute_ago ((minute_key, count) # rest) minute_calls =
     (case strp minute_key ''%Y-%m-%d %H:%M'' of
        None \<Rightarrow> minute_loop strp one_minute_ago rest minute_calls
      | Some minute_time \<Rightarrow>
          if minute_time \<ge> one_minute_ago
          then minute_loop strp one_minute_ago rest (minute_calls + count)
          else minute_loop strp one_minute_ago rest minute_calls)"

record call_totals =
  last_24h_calls :: int
  hourly_calls :: int
  minute_calls :: int

definition compute_call_totals :: "strptime \<Rightarrow> datetime \<Rightarrow> api_call_stats \<Rightarrow> call_totals" where
  "compute_call_totals strp now stats =
     (let last_24h_calls = sum_list (map snd (total_calls (last_24h stats)));
          one_hour_ago = now - timedelta_hours 1;
          hourly_calls = hourly_loop strp one_hour_ago (total_calls (hourly stats)) 0;
          one_minute_ago = now - timedelta_minutes 1;
          minute_calls = minute_loop strp one_minute_ago (total_calls (minute stats)) 0
      in \<lparr>last_24h_calls = last_24h_calls, hourly_calls = hourly_calls,
          minute_calls = minute_calls\<rparr>)"

text \<open>
  The spec's \<^verbatim>\<open>query_total(granularity, since)\<close>, written from its words for comparison
  with the loops: the sum of the buckets whose label parses to a time at or after \<open>since\<close>.
\<close>

definition in_window :: "strptime \<Rightarrow> string \<Rightarrow> datetime \<Rightarrow> string \<times> int \<Rightarrow> bool" where
  "in_window strp fmt since b =
     (case strp (fst b) fmt of None \<Rightarrow> False | Some t \<Rightarrow> since \<le> t)"

definition query_total :: "strptime \<Rightarrow> string \<Rightarrow> datetime \<Rightarrow> int dict \<Rightarrow> int" where
  "query_total strp fmt since buckets = sum_list (map snd (filter (in_window strp fmt since) buckets))"

subsection \<open>Usage per key (lines 88 to 118)\<close>

record key_usage_record =
  api_key :: string
  calls_24h :: int
  limit :: int
  usage_percent :: real
  model_stats :: "int dict"

text \<open>
  \<^verbatim>\<open>
  for model, model_data in settings.api_call_stats['last_24h']['by_endpoint'][api_key].items():
      model_calls = sum(model_data.values())
      calls_24h += model_calls
      model_stats[model] = model_calls
  \<close>
\<close>

fun model_loop :: "int dict dict \<Rightarrow> int \<Rightarrow> int dict \<Rightarrow> int \<times> int dict" where
  "model_loop [] calls mstats = (calls, mstats)"
| "model_loop ((m, model_data) # rest) calls mstats =
     (let model_calls = sum_list (map snd model_data)
      in model_loop rest (calls + model_calls) (AList.update m model_calls mstats))"

text \<open>\<^verbatim>\<open>a / b\<close> on two ints: Python raises \<^verbatim>\<open>ZeroDivisionError\<close> when \<open>b\<close> is 0.\<close>

definition py_truediv :: "int \<Rightarrow> int \<Rightarrow> py_error + real" where
  "py_truediv a b = (if b = 0 then Inl ZeroDivisionError else Inr (real_of_int a / real_of_int b))"

text \<open>
  \<^verbatim>\<open>usage_percent = (calls_24h / API_KEY_DAILY_LIMIT) * 100 if API_KEY_DAILY_LIMIT > 0 else 0\<close>
\<close>

definition compute_usage_percent :: "int \<Rightarrow> int \<Rightarrow> py_error + real" where
  "compute_usage_percent calls daily_limit =
     (if daily_limit > 0
      then (case py_truediv calls daily_limit of Inl e \<Rightarrow> Inl e | Inr q \<Rightarrow> Inr (q * 100))
      else Inr 0)"

text \<open>
  \<^verbatim>\<open>round(x, ndigits)\<close>: the multiple of \<open>10 ^ - ndigits\<close> nearest to \<open>x\<close>, the even one
  of the two when \<open>x\<close> lies half way.
\<close>

definition py_round :: "real \<Rightarrow> nat \<Rightarrow> real" where
  "py_round x ndigits =
     (let y = x * 10 ^ ndigits; f = \<lfloor>y\<rfloor>; d = y - of_int f
      in of_int (if d < 1 / 2 then f else if 1 / 2 < d then f + 1
                 else if even f then f else f + 1) / 10 ^ ndigits)"

text \<open>The body of the loop over \<^verbatim>\<open>key_manager.api_keys\<close>: the record of one key.\<close>

definition key_usage :: "int \<Rightarrow> api_call_stats \<Rightarrow> string \<Rightarrow> py_error + key_usage_record" where
  "key_usage daily_limit stats key =
     (let api_key_id = take 8 key;
          counted = (case by_endpoint (last_24h stats) of
                       None \<Rightarrow> (0, [])
                     | Some by_key \<Rightarrow>
                         (case map_of by_key key of
                            None \<Rightarrow> (0, [])
                          | Some models \<Rightarrow> model_loop models 0 []))
      in case compute_usage_percent (fst counted) daily_limit of
           Inl e \<Rightarrow> Inl e
         | Inr percent \<Rightarrow>
             Inr \<lparr>api_key = api_key_id, calls_24h = fst counted, limit = daily_limit,
                  usage_percent = py_round percent 2, model_stats = snd counted\<rparr>)"

fun api_key_loop ::
  "int \<Rightarrow> api_call_stats \<Rightarrow> string list \<Rightarrow> key_usage_record list
     \<Rightarrow> py_error + key_usage_record list" where
  "api_key_loop daily_limit stats [] acc = Inr acc"
| "api_key_loop daily_limit stats (key # keys) acc =
     (case key_usage daily_limit stats key of
        Inl e \<Rightarrow> Inl e
      | Inr r \<Rightarrow> api_key_loop daily_limit stats keys (acc @ [r]))"

text \<open>
  \<^verbatim>\<open>list.sort(key=f, reverse=True)\<close> is Python's built-in stable sort, run as CPython runs
  it: reverse the list, sort it stably in ascending order of the key, reverse the result.
  A stable sort is determined by its input, so any stable sort serves; \<^const>\<open>sort_key\<close>
  is the insertion sort of the list library.
\<close>

definition sort_reverse :: "('a \<Rightarrow> 'k::linorder) \<Rightarrow> 'a list \<Rightarrow> 'a list" where
  "sort_reverse f xs = rev (sort_key f (rev xs))"

definition build_api_key_stats ::
  "int \<Rightarrow> api_call_stats \<Rightarrow> string list \<Rightarrow> py_error + key_usage_record list" where
  "build_api_key_stats daily_limit stats keys =
     (case api_key_loop daily_limit stats keys [] of
        Inl e \<Rightarrow> Inl e
      | Inr records \<Rightarrow> Inr (sort_reverse usage_percent records))"

text \<open>
  The spec's \<^verbatim>\<open>query_by_key(api_key, "last_24h")\<close>, written from its words: the
  per-model breakdown of the key, or the empty one if the key has none.
\<close>

definition query_by_key :: "api_call_stats \<Rightarrow> string \<Rightarrow> int dict dict" where
  "query_by_key stats key =
     (case by_endpoint (last_24h stats) of
        None \<Rightarrow> []
      | Some by_key \<Rightarrow> (case map_of by_key key of None \<Rightarrow> [] | Some models \<Rightarrow> models))"

text \<open>The number of events of one model: the sum of its bucket counts.\<close>

definition model_total :: "int dict \<Rightarrow> int" where
  "model_total model_data = sum_list (map snd model_data)"

text \<open>
  The record \<open>key_usage\<close> builds for a key, written without the error case: the guard on
  the daily limit rules the error out (\<open>key_usage_returns\<close> below).
\<close>

definition key_record :: "int \<Rightarrow> api_call_stats \<Rightarrow> string \<Rightarrow> key_usage_record" where
  "key_record daily_limit stats key =
     (let counted = model_loop (query_by_key stats key) 0 []
      in \<lparr>api_key = take 8 key, calls_24h = fst counted, limit = daily_limit,
          usage_percent =
            py_round (if 0 < daily_limit
                      then real_of_int (fst counted) / real_of_int daily_limit * 100
                      else 0) 2,
          model_stats = snd counted\<rparr>)"

subsection \<open>Cache statistics (lines 123 to 138)\<close>

text \<open>
  Both passes over the cache call \<^verbatim>\<open>time.time()\<close> once for every entry. The model takes
  the clock as the sequence of its readings: \<open>time k\<close> is what the \<open>k\<close>-th call returns,
  counted from 0 at the first pass.
\<close>

type_synonym clock = "nat \<Rightarrow> real"

text \<open>\<^verbatim>\<open>data.get('expiry_time', 0)\<close>\<close>

definition get_expiry_time :: "cache_entry \<Rightarrow> real" where
  "get_expiry_time data = (case expiry_time data of None \<Rightarrow> 0 | Some t \<Rightarrow> t)"

text \<open>
  \<^verbatim>\<open>
  valid_cache = sum(1 for _, data in response_cache_manager.cache.items()
                   if time.time() < data.get('expiry_time', 0))
  \<close>
\<close>

fun count_valid :: "clock \<Rightarrow> nat \<Rightarrow> cache_entry dict \<Rightarrow> int" where
  "count_valid time k [] = 0"
| "count_valid time k ((fingerprint, data) # rest) =
     (if time k < get_expiry_time data
      then 1 + count_valid time (Suc k) rest
      else count_valid time (Suc k) rest)"

text \<open>
  \<^verbatim>\<open>
  for _, cache_data in response_cache_manager.cache.items():
      if time.time() < cache_data.get('expiry_time', 0):
          model = cache_data.get('response', {}).model
          if model:
              if model in cache_by_model:
                  cache_by_model[model] += 1
              else:
                  cache_by_model[model] = 1
  \<close>
  Where the entry has no \<^verbatim>\<open>'response'\<close>, the default \<^verbatim>\<open>{}\<close> is a dict, which has no
  attribute \<^verbatim>\<open>model\<close>: Python raises \<^verbatim>\<open>AttributeError\<close>. A model that is \<^verbatim>\<open>None\<close> or the
  empty string is false and is not counted.
\<close>

fun by_model_loop :: "clock \<Rightarrow> nat \<Rightarrow> cache_entry dict \<Rightarrow> int dict \<Rightarrow> py_error + int dict" where
  "by_model_loop time k [] by_model = Inr by_model"
| "by_model_loop time k ((fingerprint, cache_data) # rest) by_model =
     (if time k < get_expiry_time cache_data
      then (case response cache_data of
              None \<Rightarrow> Inl AttributeError
            | Some resp \<Rightarrow>
                (case model resp of
                   None \<Rightarrow> by_model_loop time (Suc k) rest by_model
                 | Some m \<Rightarrow>
                     if m \<noteq> []
                     then (case map_of by_model m of
                             Some n \<Rightarrow>
                               by_model_loop time (Suc k) rest (AList.update m (n + 1) by_model)
                           | None \<Rightarrow>
                               by_model_loop time (Suc k) rest (AList.update m 1 by_model))
                     else by_model_loop time (Suc k) rest by_model))
      else by_model_loop time (Suc k) rest by_model)"

record cache_stats =
  cache_entries :: int
  valid_cache :: int
  expired_cache :: int
  cache_by_model :: "int dict"

text \<open>
  Lines 124 to 138 with the three entries of the result that come from them (lines 173 to
  175 and 178). The first pass takes the readings \<open>0, ..., n - 1\<close> of the clock and the
  second the readings \<open>n, ..., 2 n - 1\<close>, for a cache of \<open>n\<close> entries.
\<close>

definition compute_cache_stats :: "clock \<Rightarrow> cache_entry dict \<Rightarrow> py_error + cache_stats" where
  "compute_cache_stats time c =
     (let total_cache = int (length c);
          valid = count_valid time 0 c
      in case by_model_loop time (length c) c [] of
           Inl e \<Rightarrow> Inl e
         | Inr by_model \<Rightarrow>
             Inr \<lparr>cache_entries = total_cache, valid_cache = valid,
                  expired_cache = total_cache - valid, cache_by_model = by_model\<rparr>)"

text \<open>
  For the statements: the entries of a cache that are valid when a pass starting at
  reading \<open>k\<close> looks at them, and among them those of a given model.
\<close>

fun valid_entries :: "clock \<Rightarrow> nat \<Rightarrow> cache_entry dict \<Rightarrow> cache_entry list" where
  "valid_entries time k [] = []"
| "valid_entries time k (e # rest) =
     (if time k < get_expiry_time (snd e)
      then snd e # valid_entries time (Suc k) rest
      else valid_entries time (Suc k) rest)"

definition has_model :: "string \<Rightarrow> cache_entry \<Rightarrow> bool" where
  "has_model m e =
     (case response e of None \<Rightarrow> False | Some resp \<Rightarrow> model resp = Some m)"

definition has_response :: "cache_entry \<Rightarrow> bool" where
  "has_response e = (case response e of None \<Rightarrow> False | Some resp \<Rightarrow> True)"

text \<open>
  The entry of a model in a breakdown that started as \<open>acc\<close> and counted \<open>n\<close> more entries
  of that model; the empty name is never counted.
\<close>

definition merged :: "int dict \<Rightarrow> string \<Rightarrow> int \<Rightarrow> int option" where
  "merged acc m n =
     (if m = [] \<or> n = 0 then map_of acc m
      else Some ((case map_of acc m of None \<Rightarrow> 0 | Some v \<Rightarrow> v) + n))"

subsection \<open>The endpoint \<^verbatim>\<open>get_dashboard_data\<close>\<close>

text \<open>
  What the endpoint reads from outside the file: the key pool, the daily limit, Python's
  \<^verbatim>\<open>strptime\<close>, and the three cleaning functions of \<^verbatim>\<open>app.utils\<close>, which are not part of
  this file and are taken as parameters, each a function on the store it is called on.
\<close>

record environment =
  api_keys :: "string list"
  API_KEY_DAILY_LIMIT :: int
  strptime_fn :: strptime
  clean_expired_stats :: "api_call_stats \<Rightarrow> api_call_stats"
  clean_expired :: "cache_entry dict \<Rightarrow> cache_entry dict"
  clean_completed :: "task dict \<Rightarrow> task dict"

text \<open>
  The computed entries of the returned JSON object. The object is flat; the model groups
  its entries by the block that computes them. The entries that only copy configuration
  values, the log lines and the version descriptor are left out.
\<close>

record dashboard =
  key_count :: int
  retry_count :: int
  totals :: call_totals
  api_key_stats :: "key_usage_record list"
  cache_info :: cache_stats
  active_info :: active_stats

text \<open>
  The endpoint: the three cleaning calls (lines 56 to 58) change the state, the rest reads
  it. It returns the result, or the error raised, and the state it leaves.
\<close>

definition get_dashboard_data ::
  "environment \<Rightarrow> datetime \<Rightarrow> clock \<Rightarrow> app_state \<Rightarrow> (py_error + dashboard) \<times> app_state" where
  "get_dashboard_data env now time s =
     (let s1 = s\<lparr>api_call_stats := clean_expired_stats env (api_call_stats s)\<rparr>;
          s2 = s1\<lparr>cache := clean_expired env (cache s1)\<rparr>;
          s3 = s2\<lparr>active_requests := clean_completed env (active_requests s2)\<rparr>;
          call_totals = compute_call_totals (strptime_fn env) now (api_call_stats s3)
      in case build_api_key_stats (API_KEY_DAILY_LIMIT env) (api_call_stats s3) (api_keys env) of
           Inl e \<Rightarrow> (Inl e, s3)
         | Inr key_stats \<Rightarrow>
             (case compute_cache_stats time (cache s3) of
                Inl e \<Rightarrow> (Inl e, s3)
              | Inr cache_part \<Rightarrow>
                  (Inr \<lparr>key_count = int (length (api_keys env)),
                        retry_count = int (length (api_keys env)),
                        totals = call_totals,
                        api_key_stats = key_stats,
                        cache_info = cache_part,
                        active_info = active_request_stats (active_requests s3)\<rparr>, s3)))"

subsection \<open>The endpoint \<^verbatim>\<open>reset_stats\<close> (lines 192 to 224)\<close>

text \<open>The request body: a JSON value, as the framework hands it over.\<close>

datatype json =
  JNull | JBool bool | JInt int | JFloat real | JStr string
  | JList "json list" | JDict "(string \<times> json) list"

text \<open>Python's truth value of a JSON value: what \<^verbatim>\<open>not password\<close> negates.\<close>

fun truthy :: "json \<Rightarrow> bool" where
  "truthy JNull = False"
| "truthy (JBool b) = b"
| "truthy (JInt i) = (i \<noteq> 0)"
| "truthy (JFloat x) = (x \<noteq> 0)"
| "truthy (JStr s) = (s \<noteq> [])"
| "truthy (JList xs) = (xs \<noteq> [])"
| "truthy (JDict d) = (d \<noteq> [])"

text \<open>
  \<^verbatim>\<open>HTTPException(status_code=..., detail=...)\<close>; the detail is a message for the reader and
  is left out. The success value stands for
  \<^verbatim>\<open>{"status": "success", "message": ...}\<close>.
\<close>

datatype http_exception = HTTPException (status_code: nat)

datatype reset_result = Success

text \<open>
  Modelled from the spec: \<^verbatim>\<open>api_call_stats_clean\<close> of \<^verbatim>\<open>app.utils.maintenance\<close> is not
  part of this file. The spec's \<^verbatim>\<open>reset()\<close> "atomically clears all three granularities"
  of the stats store and "does not touch TTLResponseCache or ActiveRequestTracker": the
  model empties the totals and the per-key breakdown of each granularity and has no
  access to the other two stores.
\<close>

definition empty_granularity :: granularity_stats where
  "empty_granularity = \<lparr>total_calls = [], by_endpoint = Some []\<rparr>"

definition api_call_stats_clean :: "api_call_stats \<Rightarrow> api_call_stats" where
  "api_call_stats_clean stats =
     \<lparr>last_24h = empty_granularity, hourly = empty_granularity, minute = empty_granularity\<rparr>"

text \<open>
  The endpoint, with \<^verbatim>\<open>verify_password\<close> of \<^verbatim>\<open>app.utils.auth\<close> as a parameter, a predicate
  on the password. It returns the response, or the \<^verbatim>\<open>HTTPException\<close> raised, and the state
  it leaves. The last handler (status 500) catches what the two imported functions might
  raise; in the model they do not raise, so it has no branch.
\<close>

definition reset_stats ::
  "(string \<Rightarrow> bool) \<Rightarrow> json \<Rightarrow> app_state \<Rightarrow> (http_exception + reset_result) \<times> app_state" where
  "reset_stats verify_password password_data s =
     (case password_data of
        JDict d \<Rightarrow>
          (case map_of d ''password'' of
             None \<Rightarrow> (Inl (HTTPException 400), s)
           | Some password \<Rightarrow>
               if \<not> truthy password then (Inl (HTTPException 400), s)
               else (case password of
                       JStr p \<Rightarrow>
                         if \<not> verify_password p then (Inl (HTTPException 401), s)
                         else (Inr Success,
                               s\<lparr>api_call_stats := api_call_stats_clean (api_call_stats s)\<rparr>)
                     | _ \<Rightarrow> (Inl (HTTPException 422), s)))
      | _ \<Rightarrow> (Inl (HTTPException 422), s))"

text \<open>
  For the statements: the request carries a password that is a non-empty string and
  passes the verification; and a stats store is empty.
\<close>

definition credential_accepted :: "(string \<Rightarrow> bool) \<Rightarrow> json \<Rightarrow> bool" where
  "credential_accepted verify_password password_data =
     (case password_data of
        JDict d \<Rightarrow>
          (case map_of d ''password'' of
             Some (JStr p) \<Rightarrow> p \<noteq> [] \<and> verify_password p
           | _ \<Rightarrow> False)
      | _ \<Rightarrow> False)"

definition granularity_empty :: "granularity_stats \<Rightarrow> bool" where
  "granularity_empty g =
     (total_calls g = [] \<and> (case by_endpoint g of None \<Rightarrow> True | Some by_key \<Rightarrow> by_key = []))"

definition stats_empty :: "api_call_stats \<Rightarrow> bool" where
  "stats_empty stats =
     (granularity_empty (last_24h stats) \<and> granularity_empty (hourly stats)
      \<and> granularity_empty (minute stats))"

subsection \<open>The reported percentage in double arithmetic (lines 106 and 113)\<close>

text \<open>
  The records above carry the percentage computed exactly. What the code reports is a
  double, and a statement about its rounding needs the arithmetic of doubles. This
  subsection models lines 106 and 113 as Python computes them: every operation returns
  the double nearest to the exact result, the one with the even mantissa when two are
  equally near (IEEE 754 binary64, 53 bits of mantissa). The exponent range of doubles is
  left out: no overflow and no subnormal numbers.

  \<open>exponent x\<close> is the integer \<open>e\<close> with \<open>2 ^ e \<le> \<bar>x\<bar> < 2 ^ (e + 1)\<close>, found by halving or
  doubling; \<open>fl x\<close> is the double nearest to \<open>x\<close>.
\<close>

function exponent_up :: "real \<Rightarrow> int" where
  "exponent_up x = (if 2 \<le> x then exponent_up (x / 2) + 1 else 0)"
  by pat_completeness auto
termination
proof (relation "measure (\<lambda>x. nat \<lfloor>x\<rfloor>)")
  show "wf (measure (\<lambda>x. nat \<lfloor>x\<rfloor>))"
    by simp
next
  fix x :: real
  assume "2 \<le> x"
  then have "\<lfloor>x / 2\<rfloor> < \<lfloor>x\<rfloor>" and "0 < \<lfloor>x\<rfloor>"
    by linarith+
  then show "(x / 2, x) \<in> measure (\<lambda>x. nat \<lfloor>x\<rfloor>)"
    by simp
qed

function exponent_down :: "real \<Rightarrow> int" where
  "exponent_down x = (if 0 < x \<and> x < 1 then exponent_down (x * 2) - 1 else 0)"
  by pat_completeness auto
termination
proof (relation "measure (\<lambda>x. nat \<lfloor>1 / x\<rfloor>)")
  show "wf (measure (\<lambda>x. nat \<lfloor>1 / x\<rfloor>))"
    by simp
next
  fix x :: real
  assume a: "0 < x \<and> x < 1"
  define y where "y = 1 / x"
  have y: "1 < y"
    using a by (simp add: y_def)
  have half: "1 / (x * 2) = y / 2"
    by (simp add: y_def)
  have "\<lfloor>y / 2\<rfloor> < \<lfloor>y\<rfloor>"
  proof (cases "2 \<le> y")
    case True
    then show ?thesis by linarith
  next
    case False
    with y have "\<lfloor>y / 2\<rfloor> = 0" "\<lfloor>y\<rfloor> = 1" by linarith+
    then show ?thesis by simp
  qed
  moreover have "0 < \<lfloor>y\<rfloor>"
    using y by linarith
  ultimately have "nat \<lfloor>y / 2\<rfloor> < nat \<lfloor>y\<rfloor>"
    by linarith
  then have "nat \<lfloor>1 / (x * 2)\<rfloor> < nat \<lfloor>1 / x\<rfloor>"
    unfolding half unfolding y_def .
  then show "(x * 2, x) \<in> measure (\<lambda>x. nat \<lfloor>1 / x\<rfloor>)"
    by simp
qed

declare exponent_up.simps [simp del] exponent_down.simps [simp del]








subsection \<open>The response of \<^verbatim>\<open>get_dashboard_data\<close> as JSON (lines 149 to 190)\<close>





text \<open>
  For the statements. \<open>contains k s\<close>: the string \<open>k\<close> stands somewhere in the string \<open>s\<close>.
  \<open>occurs k j\<close>: \<open>k\<close> stands in a string of the JSON value \<open>j\<close>, which is a string value or
  the name of a member of an object, at any depth.
\<close>

definition contains :: "string \<Rightarrow> string \<Rightarrow> bool" where
  "contains k s = list_ex (\<lambda>i. take (length k) (drop i s) = k) [0 ..< Suc (length s)]"








section \<open>Properties\<close>

subsection \<open>Active requests\<close>

lemma count_done_filter: "count_done ts = int (length (filter task_done ts))"
  by (induction ts) simp_all

lemma count_done_bounds: "0 \<le> count_done ts \<and> count_done ts \<le> int (length ts)"
proof -
  have "length (filter task_done ts) \<le> length ts"
    by (rule length_filter_le)
  then show ?thesis
    by (simp add: count_done_filter)
qed

text \<open>
  Claim C9. Whatever the tracker holds, the three counts the dashboard reports satisfy
  \<open>active_pending = active_count - active_done\<close>; \<open>active_done\<close> is the number of tracked
  tasks that are done, so it lies between 0 and \<open>active_count\<close>, and all three counts
  are non-negative.
\<close>

theorem active_counts_consistent:
  "active_pending (active_request_stats reqs)
     = active_count (active_request_stats reqs) - active_done (active_request_stats reqs)
   \<and> active_count (active_request_stats reqs) = int (length reqs)
   \<and> active_done (active_request_stats reqs) = int (length (filter task_done (map snd reqs)))
   \<and> active_done (active_request_stats reqs) \<le> active_count (active_request_stats reqs)
   \<and> 0 \<le> active_count (active_request_stats reqs)
   \<and> 0 \<le> active_done (active_request_stats reqs)
   \<and> 0 \<le> active_pending (active_request_stats reqs)"
  using count_done_bounds [of "map snd reqs"]
  by (simp add: active_request_stats_def Let_def count_done_filter)

subsection \<open>Call totals\<close>

lemma hourly_loop_acc:
  "hourly_loop strp since buckets acc = acc + query_total strp ''%Y-%m-%d %H:00'' since buckets"
  by (induction buckets arbitrary: acc)
     (auto simp: query_total_def in_window_def split: option.splits)

lemma minute_loop_acc:
  "minute_loop strp since buckets acc = acc + query_total strp ''%Y-%m-%d %H:%M'' since buckets"
  by (induction buckets arbitrary: acc)
     (auto simp: query_total_def in_window_def split: option.splits)

lemma query_total_skip:
  "strp label fmt = None \<Longrightarrow>
     query_total strp fmt since (xs @ (label, c) # ys) = query_total strp fmt since (xs @ ys)"
  by (simp add: query_total_def in_window_def)

text \<open>
  Claim C3. The hourly total is the sum of the buckets of the hourly \<open>total\<close> whose label
  parses to a time at or after \<open>now\<close> minus one hour, and the per-minute total is the sum of
  the buckets of the minute \<open>total\<close> whose label parses to a time at or after \<open>now\<close> minus
  one minute. A bucket whose label does not parse is skipped: both loops return a number
  for every input, and such a bucket, wherever it stands and whatever its count, leaves
  the result as it is without it.
\<close>

theorem call_totals_sum_window:
  "hourly_calls (compute_call_totals strp now stats)
     = query_total strp ''%Y-%m-%d %H:00'' (now - timedelta_hours 1) (total_calls (hourly stats))
   \<and> minute_calls (compute_call_totals strp now stats)
     = query_total strp ''%Y-%m-%d %H:%M'' (now - timedelta_minutes 1) (total_calls (minute stats))
   \<and> (strp label ''%Y-%m-%d %H:00'' = None \<longrightarrow>
        hourly_loop strp since (xs @ (label, c) # ys) acc = hourly_loop strp since (xs @ ys) acc)
   \<and> (strp label ''%Y-%m-%d %H:%M'' = None \<longrightarrow>
        minute_loop strp since (xs @ (label, c) # ys) acc = minute_loop strp since (xs @ ys) acc)"
  by (simp add: compute_call_totals_def Let_def hourly_loop_acc minute_loop_acc query_total_skip)

theorem call_totals_sum_window_witness:
  "(let strp = (\<lambda>s fmt. if s = ''2024-01-01 10:00'' then Some 36000000000
                         else if s = ''2024-01-01 10:30'' then Some 37800000000 else None);
        g = \<lparr>total_calls = [(''2024-01-01 10:00'', 4), (''legacy'', 9), (''2024-01-01 10:30'', 2)],
             by_endpoint = None\<rparr>;
        stats = \<lparr>last_24h = g, hourly = g, minute = g\<rparr>
    in hourly_calls (compute_call_totals strp 37830000000 stats) = 6
     \<and> minute_calls (compute_call_totals strp 37830000000 stats) = 2
     \<and> strp ''legacy'' ''%Y-%m-%d %H:00'' = None
     \<and> hourly_loop strp 34230000000 ([(''2024-01-01 10:00'', 4)] @ (''legacy'', 9) # [(''2024-01-01 10:30'', 2)]) 0
         = hourly_loop strp 34230000000 ([(''2024-01-01 10:00'', 4)] @ [(''2024-01-01 10:30'', 2)]) 0
     \<and> strp ''legacy'' ''%Y-%m-%d %H:%M'' = None
     \<and> minute_loop strp 34230000000 ([(''2024-01-01 10:00'', 4)] @ (''legacy'', 9) # [(''2024-01-01 10:30'', 2)]) 0
         = minute_loop strp 34230000000 ([(''2024-01-01 10:00'', 4)] @ [(''2024-01-01 10:30'', 2)]) 0)"
  using call_totals_sum_window
    [of "\<lambda>s fmt. if s = ''2024-01-01 10:00'' then Some 36000000000
                 else if s = ''2024-01-01 10:30'' then Some 37800000000 else None"
        37830000000
        "\<lparr>last_24h = \<lparr>total_calls = [(''2024-01-01 10:00'', 4), (''legacy'', 9), (''2024-01-01 10:30'', 2)], by_endpoint = None\<rparr>,
          hourly = \<lparr>total_calls = [(''2024-01-01 10:00'', 4), (''legacy'', 9), (''2024-01-01 10:30'', 2)], by_endpoint = None\<rparr>,
          minute = \<lparr>total_calls = [(''2024-01-01 10:00'', 4), (''legacy'', 9), (''2024-01-01 10:30'', 2)], by_endpoint = None\<rparr>\<rparr>"
        "''legacy''" 34230000000 "[(''2024-01-01 10:00'', 4)]" 9 "[(''2024-01-01 10:30'', 2)]" 0]
  by (simp add: Let_def query_total_def in_window_def timedelta_hours_def timedelta_minutes_def)

subsection \<open>Usage per key\<close>

lemma compute_usage_percent_eq:
  "compute_usage_percent calls daily_limit =
     Inr (if 0 < daily_limit then real_of_int calls / real_of_int daily_limit * 100 else 0)"
  by (simp add: compute_usage_percent_def py_truediv_def)

lemma key_usage_returns: "key_usage daily_limit stats key = Inr (key_record daily_limit stats key)"
  by (simp add: key_usage_def key_record_def query_by_key_def compute_usage_percent_eq Let_def
           split: option.splits)

lemma api_key_loop_eq:
  "api_key_loop daily_limit stats keys acc = Inr (acc @ map (key_record daily_limit stats) keys)"
  by (induction keys arbitrary: acc) (simp_all add: key_usage_returns)

lemma model_loop_calls:
  "fst (model_loop models calls mstats) = calls + sum_list (map (model_total \<circ> snd) models)"
  by (induction models arbitrary: calls mstats) (auto simp: Let_def model_total_def)

lemma model_loop_keys:
  "fst ` set (snd (model_loop models calls mstats)) = fst ` set mstats \<union> fst ` set models"
proof (induction models arbitrary: calls mstats)
  case Nil
  then show ?case by simp
next
  case (Cons a models)
  obtain m d where a: "a = (m, d)" by (cases a)
  show ?case
    by (simp add: a Let_def Cons.IH AList.dom_update)
qed

lemma update_fresh: "k \<notin> fst ` set al \<Longrightarrow> AList.update k v al = al @ [(k, v)]"
  by (induction al) auto

lemma model_loop_distinct:
  "distinct (map fst models) \<Longrightarrow> fst ` set models \<inter> fst ` set mstats = {} \<Longrightarrow>
     snd (model_loop models calls mstats) = mstats @ map (\<lambda>(m, d). (m, model_total d)) models"
proof (induction models arbitrary: calls mstats)
  case Nil
  then show ?case by simp
next
  case (Cons a models)
  obtain m d where a: "a = (m, d)" by (cases a)
  have "m \<notin> fst ` set mstats"
    using Cons.prems a by auto
  then have "AList.update m v mstats = mstats @ [(m, v)]" for v
    by (rule update_fresh)
  with Cons a show ?case
    by (auto simp: Let_def model_total_def)
qed



lemma sort_reverse_sorted: "sorted_wrt (\<lambda>a b. f b \<le> f a) (sort_reverse f xs)"
proof -
  have "sorted (map f (sort_key f (rev xs)))"
    by (rule sorted_sort_key)
  then have "sorted (rev (map f (sort_reverse f xs)))"
    by (simp add: sort_reverse_def rev_map)
  then show ?thesis
    by (simp add: sorted_wrt_rev sorted_wrt_map)
qed

lemma sort_reverse_stable:
  "filter (\<lambda>y. f y = k) (sort_reverse f xs) = filter (\<lambda>y. f y = k) xs"
  by (simp add: sort_reverse_def sort_key_stable flip: rev_filter)

lemma length_sort_reverse: "length (sort_reverse f xs) = length xs"
  by (simp add: sort_reverse_def)

text \<open>
  Claim C1. For every list of keys, every stats state and every daily limit, the
  aggregation returns the records of the keys sorted by \<open>usage_percent\<close> in descending
  order, and the sort is stable: for each value of \<open>usage_percent\<close>, the records with that
  value stand in the result in the order of the key enumeration. The result is a function
  of the keys, the stats and the limit, so a second call on unchanged data returns the
  same list.
\<close>

theorem api_key_stats_sorted_stable:
  "\<exists>records. build_api_key_stats daily_limit stats keys = Inr records
     \<and> sorted_wrt (\<lambda>a b. usage_percent b \<le> usage_percent a) records
     \<and> length records = length keys
     \<and> (\<forall>p. filter (\<lambda>r. usage_percent r = p) records
            = filter (\<lambda>r. usage_percent r = p) (map (key_record daily_limit stats) keys))"
  by (simp add: build_api_key_stats_def api_key_loop_eq sort_reverse_sorted sort_reverse_stable
        length_sort_reverse)

theorem api_key_stats_sorted_stable_witness:
  "(let stats = \<lparr>last_24h = \<lparr>total_calls = [(''2024-01-01 10:00'', 7)],
                   by_endpoint = Some
                     [(''KEY-A-0123456789'', [(''m1'', [(''2024-01-01 10:00'', 1)])]),
                      (''KEY-B-0123456789'', [(''m1'', [(''2024-01-01 10:00'', 5)])]),
                      (''KEY-C-0123456789'', [(''m2'', [(''2024-01-01 10:00'', 1)])])]\<rparr>,
                 hourly = \<lparr>total_calls = [], by_endpoint = None\<rparr>,
                 minute = \<lparr>total_calls = [], by_endpoint = None\<rparr>\<rparr>
    in build_api_key_stats 100 stats [''KEY-A-0123456789'', ''KEY-B-0123456789'', ''KEY-C-0123456789'']
       = Inr [\<lparr>api_key = ''KEY-B-01'', calls_24h = 5, limit = 100, usage_percent = 5,
               model_stats = [(''m1'', 5)]\<rparr>,
              \<lparr>api_key = ''KEY-A-01'', calls_24h = 1, limit = 100, usage_percent = 1,
               model_stats = [(''m1'', 1)]\<rparr>,
              \<lparr>api_key = ''KEY-C-01'', calls_24h = 1, limit = 100, usage_percent = 1,
               model_stats = [(''m2'', 1)]\<rparr>])"
proof -
  let ?stats = "\<lparr>last_24h = \<lparr>total_calls = [(''2024-01-01 10:00'', 7)],
                   by_endpoint = Some
                     [(''KEY-A-0123456789'', [(''m1'', [(''2024-01-01 10:00'', 1)])]),
                      (''KEY-B-0123456789'', [(''m1'', [(''2024-01-01 10:00'', 5)])]),
                      (''KEY-C-0123456789'', [(''m2'', [(''2024-01-01 10:00'', 1)])])]\<rparr>,
                 hourly = \<lparr>total_calls = [], by_endpoint = None\<rparr>,
                 minute = \<lparr>total_calls = [], by_endpoint = None\<rparr>\<rparr>"
  let ?keys = "[''KEY-A-0123456789'', ''KEY-B-0123456789'', ''KEY-C-0123456789'']"
  let ?a = "\<lparr>api_key = ''KEY-A-01'', calls_24h = 1, limit = 100, usage_percent = 1,
               model_stats = [(''m1'', 1)]\<rparr>"
  let ?b = "\<lparr>api_key = ''KEY-B-01'', calls_24h = 5, limit = 100, usage_percent = 5,
               model_stats = [(''m1'', 5)]\<rparr>"
  let ?c = "\<lparr>api_key = ''KEY-C-01'', calls_24h = 1, limit = 100, usage_percent = 1,
               model_stats = [(''m2'', 1)]\<rparr>"
  have recs: "map (key_record 100 ?stats) ?keys = [?a, ?b, ?c]"
    by (simp add: key_record_def query_by_key_def py_round_def Let_def)
  from api_key_stats_sorted_stable [of 100 ?stats ?keys]
  obtain records where r: "build_api_key_stats 100 ?stats ?keys = Inr records"
    and s: "sorted_wrt (\<lambda>a b. usage_percent b \<le> usage_percent a) records"
    and l: "length records = 3"
    and f: "\<And>p. filter (\<lambda>r. usage_percent r = p) records
            = filter (\<lambda>r. usage_percent r = p) [?a, ?b, ?c]"
    unfolding recs by auto
  have "records = [?b, ?a, ?c]"
  proof -
    from l obtain x y z where xyz: "records = [x, y, z]"
      by (metis (no_types, opaque_lifting) length_0_conv length_Suc_conv numeral_3_eq_3)
    from f [of 5] have five: "filter (\<lambda>r. usage_percent r = 5) records = [?b]" by simp
    from f [of 1] have one: "filter (\<lambda>r. usage_percent r = 1) records = [?a, ?c]" by simp
    from five one s show ?thesis
      unfolding xyz by (auto split: if_splits)
  qed
  with r show ?thesis
    by (simp add: Let_def)
qed

text \<open>
  Claim C2. The usage percent computed at line 106 is \<open>calls_24h / daily_limit * 100\<close> when
  the daily limit is positive and 0 when it is not; the computation returns a value for
  every input, so the division never raises. The record of the key reports that value
  rounded to two decimals.
\<close>

theorem usage_percent_guarded:
  "compute_usage_percent calls daily_limit
     = Inr (if 0 < daily_limit then real_of_int calls / real_of_int daily_limit * 100 else 0)
   \<and> compute_usage_percent calls daily_limit \<noteq> Inl ZeroDivisionError
   \<and> (\<exists>r. key_usage daily_limit stats key = Inr r
          \<and> usage_percent r
              = py_round (if 0 < daily_limit
                          then real_of_int (calls_24h r) / real_of_int daily_limit * 100
                          else 0) 2)"
  by (simp add: compute_usage_percent_eq key_usage_returns key_record_def Let_def)

theorem usage_percent_guarded_witness:
  "compute_usage_percent 5 100 = Inr 5
   \<and> compute_usage_percent 5 0 = Inr 0
   \<and> compute_usage_percent 5 (- 3) = Inr 0"
  using usage_percent_guarded [of 5 100] usage_percent_guarded [of 5 0]
    usage_percent_guarded [of 5 "- 3"]
  by simp

text \<open>
  Claim C4. For a key whose breakdown in the 24-hour window has distinct model names,
  \<open>calls_24h\<close> is the sum over the models of the sums of their bucket counts, and
  \<open>model_stats\<close> maps each model, in the order of the breakdown, to the sum of its bucket
  counts. In the scenario of the spec (two models with 3 and 2 events, daily limit 100)
  the record has \<open>calls_24h = 5\<close>, \<open>usage_percent = 5\<close> and
  \<open>model_stats = {m1: 3, m2: 2}\<close>.
\<close>

theorem key_usage_sums:
  assumes "distinct (map fst (query_by_key stats key))"
  shows "\<exists>r. key_usage daily_limit stats key = Inr r
     \<and> calls_24h r = sum_list (map (model_total \<circ> snd) (query_by_key stats key))
     \<and> model_stats r = map (\<lambda>(m, d). (m, model_total d)) (query_by_key stats key)
     \<and> (query_by_key stats key = [(m1, d1), (m2, d2)] \<and> model_total d1 = 3
          \<and> model_total d2 = 2 \<and> daily_limit = 100
        \<longrightarrow> calls_24h r = 5 \<and> usage_percent r = 5 \<and> model_stats r = [(m1, 3), (m2, 2)])"
proof -
  let ?r = "key_record daily_limit stats key"
  have calls: "calls_24h ?r = sum_list (map (model_total \<circ> snd) (query_by_key stats key))"
    by (simp add: key_record_def Let_def model_loop_calls)
  have stats: "model_stats ?r = map (\<lambda>(m, d). (m, model_total d)) (query_by_key stats key)"
    using assms by (simp add: key_record_def Let_def model_loop_distinct)
  have percent: "usage_percent ?r = 5" if "calls_24h ?r = 5" "daily_limit = 100"
    using that by (simp add: key_record_def Let_def py_round_def)
  have "calls_24h ?r = 5 \<and> usage_percent ?r = 5 \<and> model_stats ?r = [(m1, 3), (m2, 2)]"
    if "query_by_key stats key = [(m1, d1), (m2, d2)]" "model_total d1 = 3"
       "model_total d2 = 2" "daily_limit = 100"
  proof -
    have "calls_24h ?r = 5"
      using that calls by simp
    then show ?thesis
      using that stats percent by simp
  qed
  then show ?thesis
    using calls stats key_usage_returns by blast
qed

theorem key_usage_sums_witness:
  "(let stats = \<lparr>last_24h = \<lparr>total_calls = [(''2024-01-01 10:00'', 5)],
                   by_endpoint = Some [(''KEY-0123456789'',
                     [(''m1'', [(''2024-01-01 09:00'', 2), (''2024-01-01 10:00'', 1)]),
                      (''m2'', [(''2024-01-01 10:00'', 2)])])]\<rparr>,
                 hourly = \<lparr>total_calls = [], by_endpoint = None\<rparr>,
                 minute = \<lparr>total_calls = [], by_endpoint = None\<rparr>\<rparr>
    in distinct (map fst (query_by_key stats ''KEY-0123456789''))
     \<and> key_usage 100 stats ''KEY-0123456789''
         = Inr \<lparr>api_key = ''KEY-0123'', calls_24h = 5, limit = 100, usage_percent = 5,
                model_stats = [(''m1'', 3), (''m2'', 2)]\<rparr>)"
proof -
  let ?stats = "\<lparr>last_24h = \<lparr>total_calls = [(''2024-01-01 10:00'', 5)],
                   by_endpoint = Some [(''KEY-0123456789'',
                     [(''m1'', [(''2024-01-01 09:00'', 2), (''2024-01-01 10:00'', 1)]),
                      (''m2'', [(''2024-01-01 10:00'', 2)])])]\<rparr>,
                 hourly = \<lparr>total_calls = [], by_endpoint = None\<rparr>,
                 minute = \<lparr>total_calls = [], by_endpoint = None\<rparr>\<rparr>"
  have q: "query_by_key ?stats ''KEY-0123456789''
             = [(''m1'', [(''2024-01-01 09:00'', 2), (''2024-01-01 10:00'', 1)]),
                (''m2'', [(''2024-01-01 10:00'', 2)])]"
    by (simp add: query_by_key_def)
  have d: "distinct (map fst (query_by_key ?stats ''KEY-0123456789''))"
    by (simp add: q)
  from key_usage_sums [OF d, of 100 "''m1''" "[(''2024-01-01 09:00'', 2), (''2024-01-01 10:00'', 1)]"
      "''m2''" "[(''2024-01-01 10:00'', 2)]"]
  obtain r where r: "key_usage 100 ?stats ''KEY-0123456789'' = Inr r"
    "calls_24h r = 5" "usage_percent r = 5" "model_stats r = [(''m1'', 3), (''m2'', 2)]"
    by (auto simp: q model_total_def)
  have "api_key r = ''KEY-0123''" "limit r = 100"
    using r(1) by (auto simp: key_usage_returns key_record_def Let_def)
  with r have "r = \<lparr>api_key = ''KEY-0123'', calls_24h = 5, limit = 100, usage_percent = 5,
                model_stats = [(''m1'', 3), (''m2'', 2)]\<rparr>"
    by (cases r) simp
  with r(1) d show ?thesis
    by (simp add: Let_def)
qed

text \<open>
  Claim C5, as the code has it. The code has no filter on the count: a model is listed in
  \<open>model_stats\<close> exactly when the key's breakdown in the 24-hour window has an entry for
  it, and then with the sum of its bucket counts, also when that sum is zero. A model
  with no entry in the breakdown is omitted.
\<close>

theorem model_stats_lists_breakdown:
  assumes "distinct (map fst (query_by_key stats key))"
  shows "\<exists>r. key_usage daily_limit stats key = Inr r
     \<and> fst ` set (model_stats r) = fst ` set (query_by_key stats key)
     \<and> (\<forall>m. map_of (model_stats r) m
               = map_option model_total (map_of (query_by_key stats key) m))
     \<and> (\<forall>m. map_of (query_by_key stats key) m = None \<longrightarrow> map_of (model_stats r) m = None)"
proof -
  let ?r = "key_record daily_limit stats key"
  have "model_stats ?r = map (\<lambda>(m, d). (m, model_total d)) (query_by_key stats key)"
    using assms by (simp add: key_record_def Let_def model_loop_distinct)
  then have listed: "map_of (model_stats ?r) m
                       = map_option model_total (map_of (query_by_key stats key) m)" for m
    by (simp add: map_of_map)
  have names: "fst ` set (model_stats ?r) = fst ` set (query_by_key stats key)"
    by (simp add: key_record_def Let_def model_loop_keys)
  show ?thesis
    using listed names key_usage_returns by fastforce
qed

theorem model_stats_lists_breakdown_witness:
  "(let stats = \<lparr>last_24h = \<lparr>total_calls = [(''2024-01-01 10:00'', 3)],
                   by_endpoint = Some [(''KEY-0123456789'',
                     [(''m1'', [(''2024-01-01 10:00'', 3)]), (''m2'', [])])]\<rparr>,
                 hourly = \<lparr>total_calls = [], by_endpoint = None\<rparr>,
                 minute = \<lparr>total_calls = [], by_endpoint = None\<rparr>\<rparr>
    in distinct (map fst (query_by_key stats ''KEY-0123456789''))
     \<and> map_of (query_by_key stats ''KEY-0123456789'') ''m3'' = None
     \<and> (\<exists>r. key_usage 100 stats ''KEY-0123456789'' = Inr r
           \<and> fst ` set (model_stats r) = {''m1'', ''m2''}
           \<and> map_of (model_stats r) ''m1'' = Some 3
           \<and> map_of (model_stats r) ''m2'' = Some 0
           \<and> map_of (model_stats r) ''m3'' = None))"
proof -
  let ?stats = "\<lparr>last_24h = \<lparr>total_calls = [(''2024-01-01 10:00'', 3)],
                   by_endpoint = Some [(''KEY-0123456789'',
                     [(''m1'', [(''2024-01-01 10:00'', 3)]), (''m2'', [])])]\<rparr>,
                 hourly = \<lparr>total_calls = [], by_endpoint = None\<rparr>,
                 minute = \<lparr>total_calls = [], by_endpoint = None\<rparr>\<rparr>"
  have q: "query_by_key ?stats ''KEY-0123456789''
             = [(''m1'', [(''2024-01-01 10:00'', 3)]), (''m2'', [])]"
    by (simp add: query_by_key_def)
  have d: "distinct (map fst (query_by_key ?stats ''KEY-0123456789''))"
    by (simp add: q)
  from model_stats_lists_breakdown [OF d, of 100]
  obtain r where r: "key_usage 100 ?stats ''KEY-0123456789'' = Inr r"
    "fst ` set (model_stats r) = fst ` set (query_by_key ?stats ''KEY-0123456789'')"
    "\<And>m. map_of (model_stats r) m
           = map_option model_total (map_of (query_by_key ?stats ''KEY-0123456789'') m)"
    by blast
  have "fst ` set (model_stats r) = {''m1'', ''m2''}"
    using r(2) by (simp add: q)
  moreover have "map_of (model_stats r) ''m1'' = Some 3" "map_of (model_stats r) ''m2'' = Some 0"
    "map_of (model_stats r) ''m3'' = None"
    by (simp_all add: r(3) q model_total_def)
  moreover have "map_of (query_by_key ?stats ''KEY-0123456789'') ''m3'' = None"
    by (simp add: q)
  ultimately show ?thesis
    using r(1) d by (simp add: Let_def)
qed

text \<open>
  Against claim C5 as the spec states it: a model whose bucket dict is empty has the
  sum zero and is listed in \<open>model_stats\<close> with the count zero.
\<close>

theorem zero_count_model_is_listed:
  "key_usage 100
     \<lparr>last_24h = \<lparr>total_calls = [(''2024-01-01 10:00'', 3)],
         by_endpoint = Some [(''KEY-0123456789'',
           [(''m1'', [(''2024-01-01 10:00'', 3)]), (''m2'', [])])]\<rparr>,
       hourly = \<lparr>total_calls = [], by_endpoint = None\<rparr>,
       minute = \<lparr>total_calls = [], by_endpoint = None\<rparr>\<rparr>
     ''KEY-0123456789''
   = Inr \<lparr>api_key = ''KEY-0123'', calls_24h = 3, limit = 100, usage_percent = 3,
          model_stats = [(''m1'', 3), (''m2'', 0)]\<rparr>"
  by (simp add: key_usage_def compute_usage_percent_def py_truediv_def py_round_def Let_def)

subsection \<open>Cache statistics\<close>

lemma count_valid_eq: "count_valid time k c = int (length (valid_entries time k c))"
  by (induction time k c rule: count_valid.induct) simp_all

lemma valid_entries_length: "length (valid_entries time k c) \<le> length c"
  by (induction time k c rule: valid_entries.induct) auto

lemma valid_entries_fixed_clock:
  "(\<And>j. time j = t) \<Longrightarrow>
     valid_entries time k c = filter (\<lambda>e. t < get_expiry_time e) (map snd c)"
  by (induction time k c rule: valid_entries.induct) auto

lemma has_response_iff: "has_response e \<longleftrightarrow> response e \<noteq> None"
  by (simp add: has_response_def split: option.splits)

lemma by_model_loop_returns:
  "list_all has_response (valid_entries time k c) \<Longrightarrow> \<exists>bm. by_model_loop time k c acc = Inr bm"
proof (induction time k c acc rule: by_model_loop.induct)
  case (1 time k by_model)
  then show ?case by simp
next
  case (2 time k fingerprint cache_data rest by_model)
  show ?case
  proof (cases "time k < get_expiry_time cache_data")
    case False
    with 2 show ?thesis by simp
  next
    case True
    with "2.prems" have rest: "list_all has_response (valid_entries time (Suc k) rest)"
      and "response cache_data \<noteq> None"
      by (simp_all add: has_response_iff [of cache_data])
    then obtain resp where "response cache_data = Some resp"
      by blast
    with 2 True rest show ?thesis
      by (simp split: option.splits)
  qed
qed

lemma by_model_loop_raises:
  "\<not> list_all has_response (valid_entries time k c) \<Longrightarrow>
     by_model_loop time k c acc = Inl AttributeError"
proof (induction time k c acc rule: by_model_loop.induct)
  case (1 time k by_model)
  then show ?case by simp
next
  case (2 time k fingerprint cache_data rest by_model)
  show ?case
  proof (cases "time k < get_expiry_time cache_data")
    case False
    with 2 show ?thesis by simp
  next
    case True
    note valid = this
    show ?thesis
    proof (cases "response cache_data")
      case None
      with valid show ?thesis by simp
    next
      case (Some resp)
      with valid "2.prems" have rest: "\<not> list_all has_response (valid_entries time (Suc k) rest)"
        by (simp add: has_response_iff [of cache_data])
      with 2 valid Some show ?thesis
        by (simp split: option.splits)
    qed
  qed
qed

lemma by_model_loop_acc:
  "by_model_loop time k c acc = Inr bm \<Longrightarrow>
     map_of bm m
       = merged acc m (int (length (filter (has_model m) (valid_entries time k c))))"
proof (induction time k c acc rule: by_model_loop.induct)
  case (1 time k by_model)
  then show ?case by (simp add: merged_def)
next
  case (2 time k fingerprint cache_data rest by_model)
  show ?case
  proof (cases "time k < get_expiry_time cache_data")
    case False
    with 2 show ?thesis by simp
  next
    case True
    note valid = this
    show ?thesis
    proof (cases "response cache_data")
      case None
      with 2 valid show ?thesis by simp
    next
      case (Some resp)
      note resp = this
      show ?thesis
      proof (cases "model resp")
        case None
        with 2 valid resp show ?thesis by (simp add: has_model_def)
      next
        case (Some m')
        note m' = this
        show ?thesis
        proof (cases "m' = []")
          case True
          with 2 valid resp m' show ?thesis
            by (auto simp: has_model_def merged_def)
        next
          case False
          note nonempty = this
          show ?thesis
          proof (cases "map_of by_model m'")
            case None
            with 2 valid resp m' nonempty show ?thesis
              by (auto simp: has_model_def merged_def AList.update_conv')
          next
            case (Some n)
            with 2 valid resp m' nonempty show ?thesis
              by (auto simp: has_model_def merged_def AList.update_conv')
          qed
        qed
      qed
    qed
  qed
qed

lemma compute_cache_stats_returns:
  "list_all has_response (valid_entries time (length c) c) \<Longrightarrow>
     \<exists>cs. compute_cache_stats time c = Inr cs"
proof -
  assume "list_all has_response (valid_entries time (length c) c)"
  then obtain bm where "by_model_loop time (length c) c [] = Inr bm"
    using by_model_loop_returns by blast
  then show ?thesis
    by (simp add: compute_cache_stats_def Let_def)
qed

lemma compute_cache_stats_counts:
  assumes "compute_cache_stats time c = Inr cs"
  shows "cache_entries cs = int (length c)"
    and "valid_cache cs = int (length (valid_entries time 0 c))"
    and "expired_cache cs = cache_entries cs - valid_cache cs"
    and "0 \<le> expired_cache cs"
  using assms valid_entries_length [of time 0 c]
  by (auto simp: compute_cache_stats_def Let_def count_valid_eq split: sum.splits)

lemma compute_cache_stats_by_model:
  assumes "compute_cache_stats time c = Inr cs"
  shows "map_of (cache_by_model cs) m
           = merged [] m (int (length (filter (has_model m) (valid_entries time (length c) c))))"
proof -
  from assms obtain bm where bm: "by_model_loop time (length c) c [] = Inr bm"
    and cs: "cache_by_model cs = bm"
    by (auto simp: compute_cache_stats_def Let_def split: sum.splits)
  show ?thesis
    unfolding cs using bm by (rule by_model_loop_acc)
qed

lemma get_dashboard_data_state:
  "snd (get_dashboard_data env now time s)
     = s\<lparr>api_call_stats := clean_expired_stats env (api_call_stats s),
         cache := clean_expired env (cache s),
         active_requests := clean_completed env (active_requests s)\<rparr>"
  by (simp add: get_dashboard_data_def Let_def split: sum.splits)

lemma get_dashboard_data_cache_info:
  "fst (get_dashboard_data env now time s) = Inr d \<Longrightarrow>
     compute_cache_stats time (clean_expired env (cache s)) = Inr (cache_info d)"
  by (auto simp: get_dashboard_data_def Let_def split: sum.splits)

lemma get_dashboard_data_returns:
  assumes "compute_cache_stats time (clean_expired env (cache s)) = Inr cs"
  shows "\<exists>d. fst (get_dashboard_data env now time s) = Inr d"
proof -
  obtain records where
    "build_api_key_stats (API_KEY_DAILY_LIMIT env)
       (clean_expired_stats env (api_call_stats s)) (api_keys env) = Inr records"
    by (simp add: build_api_key_stats_def api_key_loop_eq)
  with assms show ?thesis
    by (simp add: get_dashboard_data_def Let_def)
qed

text \<open>
  Claim C8. The endpoint leaves in the state the cache that the cleaning call at line 57
  returned: computing the statistics changes nothing in it. The statistics are those of
  that cache: \<open>cache_entries\<close> is the number of its entries, \<open>valid_cache\<close> the number of
  entries whose expiry time is later than the clock reading taken when the first pass
  looks at them, \<open>expired_cache\<close> the difference of the two, and \<open>cache_by_model\<close> maps a
  model name to the number of entries of that model that are valid when the second pass
  looks at them, and lists no other name. The endpoint returns them whenever every entry
  that the second pass finds valid has a response. Under a clock that stands still at
  \<open>t\<close>, the valid entries are those with \<open>t < expiry_time\<close>.
\<close>

theorem cache_statistics_report:
  "(let c = clean_expired env (cache s); out = get_dashboard_data env now time s
    in cache (snd out) = c
     \<and> (list_all has_response (valid_entries time (length c) c) \<longrightarrow> (\<exists>d. fst out = Inr d))
     \<and> (\<forall>d. fst out = Inr d \<longrightarrow>
           cache_entries (cache_info d) = int (length c)
         \<and> valid_cache (cache_info d) = int (length (valid_entries time 0 c))
         \<and> expired_cache (cache_info d) = cache_entries (cache_info d) - valid_cache (cache_info d)
         \<and> 0 \<le> expired_cache (cache_info d)
         \<and> (\<forall>m. map_of (cache_by_model (cache_info d)) m
                  = (let n = int (length (filter (has_model m)
                                             (valid_entries time (length c) c)))
                     in if m \<noteq> [] \<and> 0 < n then Some n else None)))
     \<and> ((\<forall>j. time j = t) \<longrightarrow>
           (\<forall>k. valid_entries time k c = filter (\<lambda>e. t < get_expiry_time e) (map snd c))))"
proof -
  let ?c = "clean_expired env (cache s)"
  let ?out = "get_dashboard_data env now time s"
  have frame: "cache (snd ?out) = ?c"
    by (simp add: get_dashboard_data_state)
  have returns: "\<exists>d. fst ?out = Inr d"
    if "list_all has_response (valid_entries time (length ?c) ?c)"
    using compute_cache_stats_returns [OF that] get_dashboard_data_returns by blast
  have counts: "cache_entries (cache_info d) = int (length ?c)
         \<and> valid_cache (cache_info d) = int (length (valid_entries time 0 ?c))
         \<and> expired_cache (cache_info d) = cache_entries (cache_info d) - valid_cache (cache_info d)
         \<and> 0 \<le> expired_cache (cache_info d)"
    if "fst ?out = Inr d" for d
    using compute_cache_stats_counts [OF get_dashboard_data_cache_info [OF that]] by simp
  have by_model: "map_of (cache_by_model (cache_info d)) m
                  = (let n = int (length (filter (has_model m)
                                             (valid_entries time (length ?c) ?c)))
                     in if m \<noteq> [] \<and> 0 < n then Some n else None)"
    if "fst ?out = Inr d" for d m
    using compute_cache_stats_by_model [OF get_dashboard_data_cache_info [OF that], of m]
    by (simp add: merged_def Let_def)
  have still: "valid_entries time k ?c = filter (\<lambda>e. t < get_expiry_time e) (map snd ?c)"
    if "\<forall>j. time j = t" for k
    using that by (simp add: valid_entries_fixed_clock)
  show ?thesis
    unfolding Let_def using frame returns counts by_model [unfolded Let_def] still by blast
qed

theorem cache_statistics_report_witness:
  "(let env = \<lparr>api_keys = [''KEY-0123456789''], API_KEY_DAILY_LIMIT = 100,
               strptime_fn = (\<lambda>text fmt. None),
               clean_expired_stats = (\<lambda>stats. stats),
               clean_expired = filter (\<lambda>e. 90 < get_expiry_time (snd e)),
               clean_completed = filter (\<lambda>e. \<not> task_done (snd e))\<rparr>;
        g = \<lparr>total_calls = [], by_endpoint = Some []\<rparr>;
        c = [(''f1'', \<lparr>expiry_time = Some 200, response = Some \<lparr>model = Some ''gemini-pro''\<rparr>\<rparr>),
             (''f2'', \<lparr>expiry_time = Some 95, response = None\<rparr>),
             (''f3'', \<lparr>expiry_time = Some 300, response = Some \<lparr>model = Some ''gemini-pro''\<rparr>\<rparr>)];
        s = \<lparr>api_call_stats = \<lparr>last_24h = g, hourly = g, minute = g\<rparr>,
             cache = (''f0'', \<lparr>expiry_time = Some 80, response = None\<rparr>) # c,
             active_requests = []\<rparr>;
        out = get_dashboard_data env 0 (\<lambda>k. 100) s
    in clean_expired env (cache s) = c
     \<and> list_all has_response (valid_entries (\<lambda>k. 100) (length c) c)
     \<and> cache (snd out) = c
     \<and> (\<exists>d. fst out = Inr d
           \<and> cache_info d = \<lparr>cache_entries = 3, valid_cache = 2, expired_cache = 1,
                              cache_by_model = [(''gemini-pro'', 2)]\<rparr>))"
proof -
  let ?env = "\<lparr>api_keys = [''KEY-0123456789''], API_KEY_DAILY_LIMIT = 100,
               strptime_fn = (\<lambda>text fmt. None),
               clean_expired_stats = (\<lambda>stats. stats),
               clean_expired = filter (\<lambda>e. 90 < get_expiry_time (snd e)),
               clean_completed = filter (\<lambda>e. \<not> task_done (snd e))\<rparr>"
  let ?g = "\<lparr>total_calls = [], by_endpoint = Some []\<rparr>"
  let ?c = "[(''f1'', \<lparr>expiry_time = Some 200, response = Some \<lparr>model = Some ''gemini-pro''\<rparr>\<rparr>),
             (''f2'', \<lparr>expiry_time = Some 95, response = None\<rparr>),
             (''f3'', \<lparr>expiry_time = Some 300, response = Some \<lparr>model = Some ''gemini-pro''\<rparr>\<rparr>)]"
  let ?s = "\<lparr>api_call_stats = \<lparr>last_24h = ?g, hourly = ?g, minute = ?g\<rparr>,
             cache = (''f0'', \<lparr>expiry_time = Some 80, response = None\<rparr>) # ?c,
             active_requests = []\<rparr>"
  let ?out = "get_dashboard_data ?env 0 (\<lambda>k. 100) ?s"
  have c: "clean_expired ?env (cache ?s) = ?c"
    by (simp add: get_expiry_time_def)
  have v: "valid_entries (\<lambda>k. 100) k ?c
             = [\<lparr>expiry_time = Some 200, response = Some \<lparr>model = Some ''gemini-pro''\<rparr>\<rparr>,
                \<lparr>expiry_time = Some 300, response = Some \<lparr>model = Some ''gemini-pro''\<rparr>\<rparr>]" for k
    by (simp add: get_expiry_time_def)
  have h: "list_all has_response (valid_entries (\<lambda>k. 100) (length ?c) ?c)"
    unfolding v by (simp add: has_response_def)
  note report = cache_statistics_report [of ?env ?s 0 "\<lambda>k. 100" 100, unfolded Let_def c]
  from report h obtain d where d: "fst ?out = Inr d"
    by blast
  have "compute_cache_stats (\<lambda>k. 100) ?c
          = Inr \<lparr>cache_entries = 3, valid_cache = 2, expired_cache = 1,
                 cache_by_model = [(''gemini-pro'', 2)]\<rparr>"
    by (simp add: compute_cache_stats_def get_expiry_time_def)
  with get_dashboard_data_cache_info [OF d]
  have "cache_info d = \<lparr>cache_entries = 3, valid_cache = 2, expired_cache = 1,
                              cache_by_model = [(''gemini-pro'', 2)]\<rparr>"
    unfolding c by simp
  with d c h report show ?thesis
    unfolding Let_def by blast
qed

subsection \<open>Reset\<close>

lemma api_call_stats_clean_empty: "stats_empty (api_call_stats_clean stats)"
  by (simp add: stats_empty_def api_call_stats_clean_def granularity_empty_def
        empty_granularity_def)

lemma reset_stats_rejected:
  assumes "\<not> credential_accepted verify_password password_data"
  shows "\<exists>code. reset_stats verify_password password_data s = (Inl (HTTPException code), s)
           \<and> code \<in> {400, 401, 422}"
  using assms
  by (auto simp: reset_stats_def credential_accepted_def split: json.splits option.splits)

lemma reset_stats_accepted:
  assumes "credential_accepted verify_password password_data"
  shows "reset_stats verify_password password_data s
           = (Inr Success, s\<lparr>api_call_stats := api_call_stats_clean (api_call_stats s)\<rparr>)"
  using assms
  by (auto simp: reset_stats_def credential_accepted_def split: json.splits option.splits)

text \<open>
  Claim C6. The reset is all or nothing in the credential. If the request does not carry
  a password that is a non-empty string and passes the verification (the body is not an
  object, the password is missing or empty, it is not a string, or the verification
  fails), the endpoint raises an \<open>HTTPException\<close> with status 400, 401 or 422 and the
  state is the one it started from. If it does, the endpoint returns success, the clearing
  function has been applied to the stats, once, and the stats are empty.
\<close>

theorem reset_all_or_nothing:
  "(\<not> credential_accepted verify_password password_data \<longrightarrow>
      (\<exists>code. fst (reset_stats verify_password password_data s) = Inl (HTTPException code)
             \<and> code \<in> {400, 401, 422})
      \<and> snd (reset_stats verify_password password_data s) = s)
   \<and> (credential_accepted verify_password password_data \<longrightarrow>
        fst (reset_stats verify_password password_data s) = Inr Success
      \<and> snd (reset_stats verify_password password_data s)
          = s\<lparr>api_call_stats := api_call_stats_clean (api_call_stats s)\<rparr>
      \<and> stats_empty (api_call_stats (snd (reset_stats verify_password password_data s))))"
proof (intro conjI impI)
  assume "\<not> credential_accepted verify_password password_data"
  from reset_stats_rejected [OF this, of s]
  show "\<exists>code. fst (reset_stats verify_password password_data s) = Inl (HTTPException code)
             \<and> code \<in> {400, 401, 422}"
    and "snd (reset_stats verify_password password_data s) = s"
    by auto
next
  assume "credential_accepted verify_password password_data"
  from reset_stats_accepted [OF this, of s]
  show "fst (reset_stats verify_password password_data s) = Inr Success"
    and "snd (reset_stats verify_password password_data s)
          = s\<lparr>api_call_stats := api_call_stats_clean (api_call_stats s)\<rparr>"
    and "stats_empty (api_call_stats (snd (reset_stats verify_password password_data s)))"
    by (simp_all add: api_call_stats_clean_empty)
qed

theorem reset_all_or_nothing_witness:
  "(let verify = (\<lambda>p. p = ''secret'');
        g = \<lparr>total_calls = [(''2024-01-01 10:00'', 5)],
             by_endpoint = Some [(''KEY-0123456789'', [(''m1'', [(''2024-01-01 10:00'', 5)])])]\<rparr>;
        s = \<lparr>api_call_stats = \<lparr>last_24h = g, hourly = g, minute = g\<rparr>,
             cache = [(''f1'', \<lparr>expiry_time = Some 200, response = None\<rparr>)],
             active_requests = [(''KEY-0123456789'', \<lparr>task_done = False\<rparr>)]\<rparr>;
        wrong = JDict [(''password'', JStr ''guess'')];
        right = JDict [(''password'', JStr ''secret'')]
    in \<not> credential_accepted verify wrong
     \<and> reset_stats verify wrong s = (Inl (HTTPException 401), s)
     \<and> total_calls (last_24h (api_call_stats (snd (reset_stats verify wrong s))))
         = [(''2024-01-01 10:00'', 5)]
     \<and> credential_accepted verify right
     \<and> fst (reset_stats verify right s) = Inr Success
     \<and> stats_empty (api_call_stats (snd (reset_stats verify right s))))"
proof -
  let ?verify = "\<lambda>p. p = ''secret''"
  let ?g = "\<lparr>total_calls = [(''2024-01-01 10:00'', 5)],
             by_endpoint = Some [(''KEY-0123456789'', [(''m1'', [(''2024-01-01 10:00'', 5)])])]\<rparr>"
  let ?s = "\<lparr>api_call_stats = \<lparr>last_24h = ?g, hourly = ?g, minute = ?g\<rparr>,
             cache = [(''f1'', \<lparr>expiry_time = Some 200, response = None\<rparr>)],
             active_requests = [(''KEY-0123456789'', \<lparr>task_done = False\<rparr>)]\<rparr>"
  let ?wrong = "JDict [(''password'', JStr ''guess'')]"
  let ?right = "JDict [(''password'', JStr ''secret'')]"
  have w: "\<not> credential_accepted ?verify ?wrong"
    by (simp add: credential_accepted_def)
  have r: "credential_accepted ?verify ?right"
    by (simp add: credential_accepted_def)
  have code: "reset_stats ?verify ?wrong ?s = (Inl (HTTPException 401), ?s)"
    by (simp add: reset_stats_def)
  from reset_all_or_nothing [of ?verify ?wrong ?s] w
  have "snd (reset_stats ?verify ?wrong ?s) = ?s"
    by blast
  then have "total_calls (last_24h (api_call_stats (snd (reset_stats ?verify ?wrong ?s))))
               = [(''2024-01-01 10:00'', 5)]"
    by simp
  moreover from reset_all_or_nothing [of ?verify ?right ?s] r
  have "fst (reset_stats ?verify ?right ?s) = Inr Success"
    "stats_empty (api_call_stats (snd (reset_stats ?verify ?right ?s)))"
    by blast+
  ultimately show ?thesis
    using w r code unfolding Let_def by blast
qed

text \<open>
  Claim C7. Whatever the request and whatever the outcome, the reset leaves the response
  cache and the active requests as they were.
\<close>

theorem reset_keeps_cache_and_tracker:
  "cache (snd (reset_stats verify_password password_data s)) = cache s
   \<and> active_requests (snd (reset_stats verify_password password_data s)) = active_requests s"
proof (cases "credential_accepted verify_password password_data")
  case True
  then show ?thesis
    by (simp add: reset_stats_accepted)
next
  case False
  from reset_stats_rejected [OF this, of s] show ?thesis
    by auto
qed

subsection \<open>The reported percentage\<close>

lemma exponent_up_bounds:
  "1 \<le> x \<Longrightarrow>
     0 \<le> exponent_up x \<and> 2 ^ nat (exponent_up x) \<le> x \<and> x < 2 * 2 ^ nat (exponent_up x)"
proof (induction x rule: exponent_up.induct)
  case (1 x)
  show ?case
  proof (cases "2 \<le> x")
    case True
    then have "1 \<le> x / 2"
      by simp
    with "1.IH" [OF True] have ih: "0 \<le> exponent_up (x / 2)"
      "2 ^ nat (exponent_up (x / 2)) \<le> x / 2" "x / 2 < 2 * 2 ^ nat (exponent_up (x / 2))"
      by simp_all
    have e: "exponent_up x = exponent_up (x / 2) + 1"
      using True by (subst exponent_up.simps) simp
    have n: "nat (exponent_up (x / 2) + 1) = Suc (nat (exponent_up (x / 2)))"
      using ih(1) by simp
    show ?thesis
      unfolding e n using ih by simp
  next
    case False
    then have "exponent_up x = 0"
      by (subst exponent_up.simps) simp
    with False "1.prems" show ?thesis
      by simp
  qed
qed

lemma exponent_down_bounds:
  "0 < x \<Longrightarrow> x < 1 \<Longrightarrow>
     exponent_down x < 0 \<and> 1 \<le> x * 2 ^ nat (- exponent_down x)
     \<and> x * 2 ^ nat (- exponent_down x) < 2"
proof (induction x rule: exponent_down.induct)
  case (1 x)
  from "1.prems" have e: "exponent_down x = exponent_down (x * 2) - 1"
    by (subst exponent_down.simps) simp
  show ?case
  proof (cases "x * 2 < 1")
    case True
    with "1.IH" "1.prems" have ih: "exponent_down (x * 2) < 0"
      "1 \<le> x * 2 * 2 ^ nat (- exponent_down (x * 2))"
      "x * 2 * 2 ^ nat (- exponent_down (x * 2)) < 2"
      by simp_all
    have n: "nat (- (exponent_down (x * 2) - 1)) = Suc (nat (- exponent_down (x * 2)))"
      using ih(1) by simp
    show ?thesis
      unfolding e n using ih by (simp add: mult.assoc)
  next
    case False
    then have "exponent_down (x * 2) = 0"
      by (subst exponent_down.simps) simp
    with False "1.prems" show ?thesis
      unfolding e by simp
  qed
qed



subsection \<open>The key in the response\<close>

lemma contains_iff: "contains k s \<longleftrightarrow> (\<exists>p q. s = p @ k @ q)"
proof
  assume "contains k s"
  then obtain i where i: "take (length k) (drop i s) = k"
    by (auto simp: contains_def list_ex_iff)
  have "s = take i s @ drop i s"
    by simp
  also have "drop i s = take (length k) (drop i s) @ drop (length k) (drop i s)"
    by (rule append_take_drop_id [symmetric])
  finally have "s = take i s @ k @ drop (length k) (drop i s)"
    unfolding i .
  then show "\<exists>p q. s = p @ k @ q"
    by blast
next
  assume "\<exists>p q. s = p @ k @ q"
  then obtain p q where s: "s = p @ k @ q"
    by blast
  have "length p \<in> set [0 ..< Suc (length s)]"
    by (simp add: s)
  moreover have "take (length k) (drop (length p) s) = k"
    by (simp add: s)
  ultimately show "contains k s"
    unfolding contains_def list_ex_iff by blast
qed


lemma contains_self: "contains k k"
  unfolding contains_iff by (intro exI [of _ "[]"]) simp




lemma list_ex_subset: "list_ex P xs \<Longrightarrow> set xs \<subseteq> set ys \<Longrightarrow> list_ex P ys"
  by (auto simp: list_ex_iff)














end
